theory Spec2Isabelle
  imports Complex_Main
begin

text \<open>
  The timeline's ruler-and-selection component, \<^verbatim>\<open>src/components/timeline/Selection.js\<close>:
  the handlers of the class \<^verbatim>\<open>TimelineRulerAndSelection\<close> as functions on the state of
  the instance, each returning the state it leaves and the list of its effects on the
  store, on the event and on the window's listeners.
\<close>

section \<open>Numbers of the source language\<close>

text \<open>
  Every number in \<^verbatim>\<open>Selection.js\<close> (pixels, milliseconds) is a JavaScript number.
  The model keeps the three kinds of special value that arithmetic can produce there
  (not-a-number and the two infinities) and computes with finite values exactly: rounding,
  overflow of a finite result and the sign of zero are left out (a zero divisor is taken
  as positive zero). Where rounding decides a property, the coordinate mapping is
  stated a second time with each operation rounded (\<open>pixelToTime64\<close> below).
\<close>

datatype jsnum = Fin real | PInf | NInf | NaN

fun js_neg :: "jsnum \<Rightarrow> jsnum" where
  "js_neg (Fin a) = Fin (- a)"
| "js_neg PInf = NInf"
| "js_neg NInf = PInf"
| "js_neg NaN = NaN"

fun js_add :: "jsnum \<Rightarrow> jsnum \<Rightarrow> jsnum" where
  "js_add (Fin a) (Fin b) = Fin (a + b)"
| "js_add (Fin a) PInf = PInf"
| "js_add (Fin a) NInf = NInf"
| "js_add (Fin a) NaN = NaN"
| "js_add PInf (Fin b) = PInf"
| "js_add PInf PInf = PInf"
| "js_add PInf NInf = NaN"
| "js_add PInf NaN = NaN"
| "js_add NInf (Fin b) = NInf"
| "js_add NInf PInf = NaN"
| "js_add NInf NInf = NInf"
| "js_add NInf NaN = NaN"
| "js_add NaN y = NaN"

definition js_sub :: "jsnum \<Rightarrow> jsnum \<Rightarrow> jsnum" where
  "js_sub x y = js_add x (js_neg y)"

text \<open>The sign of a number that is not NaN: \<open>-1\<close>, \<open>0\<close> or \<open>1\<close>.\<close>

fun js_sign :: "jsnum \<Rightarrow> int" where
  "js_sign (Fin a) = (if a < 0 then - 1 else if a = 0 then 0 else 1)"
| "js_sign PInf = 1"
| "js_sign NInf = - 1"
| "js_sign NaN = 0"

definition js_signed_inf :: "int \<Rightarrow> jsnum" where
  "js_signed_inf s = (if s = 0 then NaN else if 0 < s then PInf else NInf)"

fun js_mul :: "jsnum \<Rightarrow> jsnum \<Rightarrow> jsnum" where
  "js_mul NaN y = NaN"
| "js_mul x NaN = NaN"
| "js_mul (Fin a) (Fin b) = Fin (a * b)"
| "js_mul x y = js_signed_inf (js_sign x * js_sign y)"

fun js_div :: "jsnum \<Rightarrow> jsnum \<Rightarrow> jsnum" where
  "js_div NaN y = NaN"
| "js_div x NaN = NaN"
| "js_div (Fin a) (Fin b) =
     (if b = 0 then js_signed_inf (js_sign (Fin a)) else Fin (a / b))"
| "js_div (Fin a) y = Fin 0"
| "js_div x (Fin b) = js_signed_inf (js_sign x * (if b < 0 then - 1 else 1))"
| "js_div x y = NaN"

text \<open>The comparison operators: every comparison with NaN is false.\<close>

fun js_lt :: "jsnum \<Rightarrow> jsnum \<Rightarrow> bool" where
  "js_lt NaN y = False"
| "js_lt x NaN = False"
| "js_lt (Fin a) (Fin b) = (a < b)"
| "js_lt x PInf = (x \<noteq> PInf)"
| "js_lt NInf y = (y \<noteq> NInf)"
| "js_lt x y = False"

definition js_gt :: "jsnum \<Rightarrow> jsnum \<Rightarrow> bool" where
  "js_gt x y = js_lt y x"

definition js_ge :: "jsnum \<Rightarrow> jsnum \<Rightarrow> bool" where
  "js_ge x y = (x \<noteq> NaN \<and> y \<noteq> NaN \<and> \<not> js_lt x y)"

definition js_le :: "jsnum \<Rightarrow> jsnum \<Rightarrow> bool" where
  "js_le x y = js_ge y x"

text \<open>\<^verbatim>\<open>Math.min\<close> and \<^verbatim>\<open>Math.max\<close> of two arguments: NaN when either is NaN.\<close>

definition Math_min :: "jsnum \<Rightarrow> jsnum \<Rightarrow> jsnum" where
  "Math_min x y = (if x = NaN \<or> y = NaN then NaN else if js_lt y x then y else x)"

definition Math_max :: "jsnum \<Rightarrow> jsnum \<Rightarrow> jsnum" where
  "Math_max x y = (if x = NaN \<or> y = NaN then NaN else if js_lt x y then y else x)"

text \<open>
  \<^verbatim>\<open>clamp\<close> is the function of the npm package of that name, which the component imports:
  \<^verbatim>\<open>
  function clamp(value, min, max) {
    return min < max
      ? (value < min ? min : value > max ? max : value)
      : (value < max ? max : value > min ? min : value)
  }
  \<close>
\<close>

definition clamp :: "jsnum \<Rightarrow> jsnum \<Rightarrow> jsnum \<Rightarrow> jsnum" where
  "clamp val lo hi =
     (if js_lt lo hi
      then (if js_lt val lo then lo else if js_gt val hi then hi else val)
      else (if js_lt val hi then hi else if js_gt val lo then lo else val))"

section \<open>Data of the component\<close>

text \<open>\<^verbatim>\<open>StartEndRange\<close>: \<^verbatim>\<open>{ start, end }\<close> in milliseconds.\<close>

record range =
  range_start :: jsnum
  range_end :: jsnum

text \<open>
  \<^verbatim>\<open>PreviewSelection\<close>: either \<^verbatim>\<open>{ hasSelection: false, isModifying: false }\<close> or
  \<^verbatim>\<open>{ hasSelection: true, selectionStart, selectionEnd, isModifying }\<close>.
\<close>

datatype previewSelection =
  NoSelection
| Selection jsnum jsnum bool

text \<open>The properties the component receives: its own and the ones read from the store.\<close>

record props =
  width :: jsnum
  previewSelection :: previewSelection
  committedRange :: range
  zeroAt :: jsnum
  minSelectionStartWidth :: jsnum

text \<open>
  The rectangle \<^verbatim>\<open>getContentRect\<close> returns for the container. That helper is imported
  from \<^verbatim>\<open>utils/css-geometry-tools\<close>; its result is an input of the handlers here.
\<close>

record rect =
  rect_left :: jsnum
  rect_top :: jsnum
  rect_right :: jsnum
  rect_bottom :: jsnum
  rect_width :: jsnum

record mouseEvent =
  button :: int
  pageX :: jsnum
  pageY :: jsnum

text \<open>
  What a handler does to the outside: the two actions it dispatches, the two methods it
  calls on the event it handles, and its calls of \<^verbatim>\<open>window.addEventListener\<close> and
  \<^verbatim>\<open>window.removeEventListener\<close> (always with capture), in the order they happen.
\<close>

datatype eventType = Mousemove | Mouseup

datatype effect =
  UpdatePreviewSelection previewSelection
| CommitRange jsnum jsnum
| PreventDefault
| StopPropagation
| AddEventListener eventType nat
| RemoveEventListener eventType nat

text \<open>
  The variables the two closures made by one call of \<^verbatim>\<open>_onMouseDown\<close> share: the
  constants \<^verbatim>\<open>rect\<close>, \<^verbatim>\<open>committedRange\<close>, \<^verbatim>\<open>minSelectionStartWidth\<close> and
  \<^verbatim>\<open>mouseDownTime\<close>, and the variable \<^verbatim>\<open>isRangeSelecting\<close>.
\<close>

record closure =
  cap_rect :: rect
  cap_committedRange :: range
  cap_minSelectionStartWidth :: jsnum
  mouseDownTime :: jsnum
  isRangeSelecting :: bool

text \<open>
  The instance and the part of the window it touches. A pair of handlers is named by the
  number of the \<^verbatim>\<open>_onMouseDown\<close> call that made it; \<open>closures\<close> holds the variables
  of each pair, and the two listener lists are the window's capturing listeners in
  registration order.
\<close>

record component =
  container :: bool
  handlers :: "nat option"
  hoverLocation :: "jsnum option"
  closures :: "nat \<Rightarrow> closure option"
  nextClosure :: nat
  mousemoveListeners :: "nat list"
  mouseupListeners :: "nat list"

section \<open>The handlers\<close>

text \<open>
  The time under the pointer, the expression that \<^verbatim>\<open>_onMouseDown\<close>,
  \<^verbatim>\<open>mouseMoveHandler\<close> and \<^verbatim>\<open>mouseUpHandler\<close> each write out:
  \<^verbatim>\<open>((event.pageX - rect.left) / rect.width) * (committedRange.end - committedRange.start) + committedRange.start\<close>.
\<close>

definition timeAt :: "mouseEvent \<Rightarrow> rect \<Rightarrow> range \<Rightarrow> jsnum" where
  "timeAt event r cr =
     js_add
       (js_mul (js_div (js_sub (pageX event) (rect_left r)) (rect_width r))
               (js_sub (range_end cr) (range_start cr)))
       (range_start cr)"

text \<open>
  \<^verbatim>\<open>addEventListener\<close> ignores a listener that is registered already;
  \<^verbatim>\<open>removeEventListener\<close> ignores one that is not.
\<close>

definition addEventListener :: "nat \<Rightarrow> nat list \<Rightarrow> nat list" where
  "addEventListener g ls = (if g \<in> set ls then ls else ls @ [g])"

definition removeEventListener :: "nat \<Rightarrow> nat list \<Rightarrow> nat list" where
  "removeEventListener g ls = removeAll g ls"

definition installMoveAndUpHandlers :: "nat \<Rightarrow> component \<Rightarrow> component \<times> effect list" where
  "installMoveAndUpHandlers g w =
     (w\<lparr>handlers := Some g,
        mousemoveListeners := addEventListener g (mousemoveListeners w),
        mouseupListeners := addEventListener g (mouseupListeners w)\<rparr>,
      [AddEventListener Mousemove g, AddEventListener Mouseup g])"

definition uninstallMoveAndUpHandlers :: "component \<Rightarrow> component \<times> effect list" where
  "uninstallMoveAndUpHandlers w =
     (case handlers w of
        None \<Rightarrow> (w, [])
      | Some g \<Rightarrow>
          (w\<lparr>mousemoveListeners := removeEventListener g (mousemoveListeners w),
             mouseupListeners := removeEventListener g (mouseupListeners w)\<rparr>,
           [RemoveEventListener Mousemove g, RemoveEventListener Mouseup g]))"

text \<open>
  \<^verbatim>\<open>mouseMoveHandler\<close>: the closure's variables go in and come out, since the handler
  may set \<^verbatim>\<open>isRangeSelecting\<close>.
\<close>

definition mouseMoveHandler :: "closure \<Rightarrow> mouseEvent \<Rightarrow> closure \<times> effect list" where
  "mouseMoveHandler c event =
     (let mouseMoveTime = timeAt event (cap_rect c) (cap_committedRange c);
          selStart = clamp (Math_min (mouseDownTime c) mouseMoveTime)
                       (range_start (cap_committedRange c)) (range_end (cap_committedRange c));
          selEnd = clamp (Math_max (mouseDownTime c) mouseMoveTime)
                     (range_start (cap_committedRange c)) (range_end (cap_committedRange c))
      in if isRangeSelecting c \<or> js_ge (js_sub selEnd selStart) (cap_minSelectionStartWidth c)
         then (c\<lparr>isRangeSelecting := True\<rparr>,
               [UpdatePreviewSelection (Selection selStart selEnd True)])
         else (c, []))"

text \<open>
  \<^verbatim>\<open>mouseUpHandler\<close> reads \<^verbatim>\<open>this.props.previewSelection\<close> when it runs, so the
  properties of that moment are an argument.
\<close>

definition mouseUpHandler ::
  "closure \<Rightarrow> props \<Rightarrow> mouseEvent \<Rightarrow> component \<Rightarrow> component \<times> effect list" where
  "mouseUpHandler c p event w =
     (if isRangeSelecting c then
        (let mouseMoveTime = timeAt event (cap_rect c) (cap_committedRange c);
             selStart = clamp (Math_min (mouseDownTime c) mouseMoveTime)
                          (range_start (cap_committedRange c)) (range_end (cap_committedRange c));
             selEnd = clamp (Math_max (mouseDownTime c) mouseMoveTime)
                        (range_start (cap_committedRange c)) (range_end (cap_committedRange c));
             (w', removed) = uninstallMoveAndUpHandlers w
         in (w', [UpdatePreviewSelection (Selection selStart selEnd False), StopPropagation]
                 @ removed))
      else
        (let unset =
               (case previewSelection p of
                  NoSelection \<Rightarrow> []
                | Selection selStart selEnd modifying \<Rightarrow>
                    (let mouseUpTime = timeAt event (cap_rect c) (cap_committedRange c)
                     in if js_lt mouseUpTime selStart \<or> js_ge mouseUpTime selEnd
                        then [UpdatePreviewSelection NoSelection]
                        else []));
             (w', removed) = uninstallMoveAndUpHandlers w
         in (w', unset @ removed)))"

text \<open>
  \<^verbatim>\<open>_onMouseDown\<close>, with the properties and the container's content rectangle of the
  moment as arguments.
\<close>

definition onMouseDown ::
  "props \<Rightarrow> rect \<Rightarrow> mouseEvent \<Rightarrow> component \<Rightarrow> component \<times> effect list" where
  "onMouseDown p r event w =
     (if \<not> container w \<or> button event \<noteq> 0 then (w, [])
      else if js_lt (pageX event) (rect_left r) \<or> js_ge (pageX event) (rect_right r) \<or>
              js_lt (pageY event) (rect_top r) \<or> js_ge (pageY event) (rect_bottom r)
      then (w, [])
      else
        (let c = \<lparr>cap_rect = r,
                  cap_committedRange = committedRange p,
                  cap_minSelectionStartWidth = minSelectionStartWidth p,
                  mouseDownTime = timeAt event r (committedRange p),
                  isRangeSelecting = False\<rparr>;
             g = nextClosure w;
             (w', installed) =
               installMoveAndUpHandlers g
                 (w\<lparr>closures := (closures w)(g \<mapsto> c), nextClosure := Suc g\<rparr>)
         in (w', PreventDefault # installed)))"

text \<open>\<^verbatim>\<open>_onMouseMove\<close>: the hover line.\<close>

definition onMouseMove :: "rect \<Rightarrow> mouseEvent \<Rightarrow> component \<Rightarrow> component" where
  "onMouseMove r event w =
     (if \<not> container w then w
      else if js_lt (pageX event) (rect_left r) \<or> js_ge (pageX event) (rect_right r) \<or>
              js_lt (pageY event) (rect_top r) \<or> js_ge (pageY event) (rect_bottom r)
      then w\<lparr>hoverLocation := None\<rparr>
      else w\<lparr>hoverLocation := Some (js_sub (pageX event) (rect_left r))\<rparr>)"

subsection \<open>Dragging a handle of an existing selection\<close>

record selectionDeltas =
  startDelta :: jsnum
  endDelta :: jsnum

record originalSelection =
  selectionStart :: jsnum
  selectionEnd :: jsnum

definition makeOnMove ::
  "(jsnum \<Rightarrow> selectionDeltas) \<Rightarrow> props \<Rightarrow> originalSelection \<Rightarrow> jsnum \<Rightarrow> jsnum \<Rightarrow> bool
     \<Rightarrow> effect list" where
  "makeOnMove fn p orig dx dy modifying =
     (let delta = js_mul (js_div dx (width p))
                    (js_sub (range_end (committedRange p)) (range_start (committedRange p)));
          deltas = fn delta;
          selStart = Math_max (range_start (committedRange p))
                       (js_add (selectionStart orig) (startDelta deltas));
          selEnd = clamp (js_add (selectionEnd orig) (endDelta deltas))
                     selStart (range_end (committedRange p))
      in [UpdatePreviewSelection (Selection selStart selEnd modifying)])"

definition rangeStartOnMove ::
  "props \<Rightarrow> originalSelection \<Rightarrow> jsnum \<Rightarrow> jsnum \<Rightarrow> bool \<Rightarrow> effect list" where
  "rangeStartOnMove = makeOnMove (\<lambda>delta. \<lparr>startDelta = delta, endDelta = Fin 0\<rparr>)"

definition moveRangeOnMove ::
  "props \<Rightarrow> originalSelection \<Rightarrow> jsnum \<Rightarrow> jsnum \<Rightarrow> bool \<Rightarrow> effect list" where
  "moveRangeOnMove = makeOnMove (\<lambda>delta. \<lparr>startDelta = delta, endDelta = delta\<rparr>)"

definition rangeEndOnMove ::
  "props \<Rightarrow> originalSelection \<Rightarrow> jsnum \<Rightarrow> jsnum \<Rightarrow> bool \<Rightarrow> effect list" where
  "rangeEndOnMove = makeOnMove (\<lambda>delta. \<lparr>startDelta = Fin 0, endDelta = delta\<rparr>)"

subsection \<open>The zoom button\<close>

definition zoomButtonOnMouseDown :: "effect list" where
  "zoomButtonOnMouseDown = [StopPropagation]"

definition zoomButtonOnClick :: "props \<Rightarrow> effect list" where
  "zoomButtonOnClick p =
     StopPropagation #
     (case previewSelection p of
        NoSelection \<Rightarrow> []
      | Selection selStart selEnd modifying \<Rightarrow>
          [CommitRange (js_sub selStart (zeroAt p)) (js_sub selEnd (zeroAt p))])"

section \<open>Delivery of window events\<close>

text \<open>
  A registered listener is run on the variables of its closure, and what it assigns is
  stored back.
\<close>

definition fireMouseMove :: "nat \<Rightarrow> mouseEvent \<Rightarrow> component \<Rightarrow> component \<times> effect list" where
  "fireMouseMove g event w =
     (case closures w g of
        None \<Rightarrow> (w, [])
      | Some c \<Rightarrow>
          (let (c', effs) = mouseMoveHandler c event
           in (w\<lparr>closures := (closures w)(g \<mapsto> c')\<rparr>, effs)))"

definition fireMouseUp ::
  "nat \<Rightarrow> props \<Rightarrow> mouseEvent \<Rightarrow> component \<Rightarrow> component \<times> effect list" where
  "fireMouseUp g p event w =
     (case closures w g of
        None \<Rightarrow> (w, [])
      | Some c \<Rightarrow> mouseUpHandler c p event w)"

text \<open>
  The window runs the listeners that were registered when the event arrived, in
  registration order, and skips one that an earlier listener has removed meanwhile.
\<close>

fun deliver ::
  "(nat \<Rightarrow> component \<Rightarrow> component \<times> effect list) \<Rightarrow> (component \<Rightarrow> nat list) \<Rightarrow> nat list
     \<Rightarrow> component \<Rightarrow> component \<times> effect list" where
  "deliver fire registered [] w = (w, [])"
| "deliver fire registered (g # gs) w =
     (if g \<in> set (registered w)
      then (let (w1, effs1) = fire g w;
                (w2, effs2) = deliver fire registered gs w1
            in (w2, effs1 @ effs2))
      else deliver fire registered gs w)"

definition windowMouseMove :: "mouseEvent \<Rightarrow> component \<Rightarrow> component \<times> effect list" where
  "windowMouseMove event w =
     deliver (\<lambda>g. fireMouseMove g event) mousemoveListeners (mousemoveListeners w) w"

definition windowMouseUp :: "props \<Rightarrow> mouseEvent \<Rightarrow> component \<Rightarrow> component \<times> effect list" where
  "windowMouseUp p event w =
     deliver (\<lambda>g. fireMouseUp g p event) mouseupListeners (mouseupListeners w) w"

text \<open>A run of pointer moves, and one whole gesture: press, moves, release.\<close>

fun windowMouseMoves :: "mouseEvent list \<Rightarrow> component \<Rightarrow> component \<times> effect list" where
  "windowMouseMoves [] w = (w, [])"
| "windowMouseMoves (event # events) w =
     (let (w1, effs1) = windowMouseMove event w;
          (w2, effs2) = windowMouseMoves events w1
      in (w2, effs1 @ effs2))"

definition gesture ::
  "props \<Rightarrow> rect \<Rightarrow> mouseEvent \<Rightarrow> mouseEvent list \<Rightarrow> props \<Rightarrow> mouseEvent \<Rightarrow> component
     \<Rightarrow> component \<times> effect list" where
  "gesture p r down moves p' up w =
     (let (w1, effs1) = onMouseDown p r down w;
          (w2, effs2) = windowMouseMoves moves w1;
          (w3, effs3) = windowMouseUp p' up w2
      in (w3, effs1 @ effs2 @ effs3))"

section \<open>Reading the effects\<close>

fun updatesOf :: "effect list \<Rightarrow> previewSelection list" where
  "updatesOf [] = []"
| "updatesOf (UpdatePreviewSelection s # effs) = s # updatesOf effs"
| "updatesOf (eff # effs) = updatesOf effs"

fun installsOf :: "effect list \<Rightarrow> (eventType \<times> nat) list" where
  "installsOf [] = []"
| "installsOf (AddEventListener t g # effs) = (t, g) # installsOf effs"
| "installsOf (eff # effs) = installsOf effs"

fun uninstallsOf :: "effect list \<Rightarrow> (eventType \<times> nat) list" where
  "uninstallsOf [] = []"
| "uninstallsOf (RemoveEventListener t g # effs) = (t, g) # uninstallsOf effs"
| "uninstallsOf (eff # effs) = uninstallsOf effs"

section \<open>The specification's formulas\<close>

text \<open>
  The coordinate mapper as the specification writes it:
  \<open>time = (pixelOffset / containerWidth) * (range.end - range.start) + range.start\<close>.
\<close>

definition pixelToTime :: "jsnum \<Rightarrow> jsnum \<Rightarrow> range \<Rightarrow> jsnum" where
  "pixelToTime pixelOffset containerWidth rg =
     js_add (js_mul (js_div pixelOffset containerWidth)
                    (js_sub (range_end rg) (range_start rg)))
            (range_start rg)"

text \<open>
  The pair a new-selection gesture proposes for a pointer at time \<open>t\<close>:
  the origin and \<open>t\<close> in order, each clamped to the committed range.
\<close>

definition newSelectionStart :: "closure \<Rightarrow> jsnum \<Rightarrow> jsnum" where
  "newSelectionStart c t =
     clamp (Math_min (mouseDownTime c) t)
       (range_start (cap_committedRange c)) (range_end (cap_committedRange c))"

definition newSelectionEnd :: "closure \<Rightarrow> jsnum \<Rightarrow> jsnum" where
  "newSelectionEnd c t =
     clamp (Math_max (mouseDownTime c) t)
       (range_start (cap_committedRange c)) (range_end (cap_committedRange c))"

text \<open>
  The drag-handle controller as the specification writes it: one function over the three
  kinds of handle. Its clamp is the one its words describe, \<open>end is clamped against the
  already-clamped start, guaranteeing newStart \<le> newEnd always\<close>: the value is cut at the
  upper bound first and raised to the lower bound last, so the result is never below the
  lower bound, whatever the order of the two bounds.
\<close>

definition clampTo :: "jsnum \<Rightarrow> jsnum \<Rightarrow> jsnum \<Rightarrow> jsnum" where
  "clampTo val lo hi = Math_max lo (Math_min val hi)"

datatype handleKind = StartHandle | MoveHandle | EndHandle

fun handleDeltas :: "handleKind \<Rightarrow> jsnum \<Rightarrow> jsnum \<times> jsnum" where
  "handleDeltas StartHandle delta_time = (delta_time, Fin 0)"
| "handleDeltas MoveHandle delta_time = (delta_time, delta_time)"
| "handleDeltas EndHandle delta_time = (Fin 0, delta_time)"

definition handleDrag ::
  "handleKind \<Rightarrow> jsnum \<Rightarrow> range \<Rightarrow> jsnum \<Rightarrow> jsnum \<Rightarrow> jsnum \<Rightarrow> jsnum \<times> jsnum" where
  "handleDrag kind containerWidth cr originalStart originalEnd dx =
     (let delta_time = js_mul (js_div dx containerWidth)
                         (js_sub (range_end cr) (range_start cr));
          (startDelta, endDelta) = handleDeltas kind delta_time;
          newStart = Math_max (range_start cr) (js_add originalStart startDelta);
          newEnd = clampTo (js_add originalEnd endDelta) newStart (range_end cr)
      in (newStart, newEnd))"

text \<open>The callback the component gives to the handle of each kind.\<close>

fun onMoveOf ::
  "handleKind \<Rightarrow> props \<Rightarrow> originalSelection \<Rightarrow> jsnum \<Rightarrow> jsnum \<Rightarrow> bool \<Rightarrow> effect list" where
  "onMoveOf StartHandle = rangeStartOnMove"
| "onMoveOf MoveHandle = moveRangeOnMove"
| "onMoveOf EndHandle = rangeEndOnMove"

text \<open>
  When \<^verbatim>\<open>_onMouseDown\<close> goes on to start a gesture: the container is there, the button is
  the primary one and the pointer is inside the content rectangle.
\<close>

definition accepts :: "component \<Rightarrow> rect \<Rightarrow> mouseEvent \<Rightarrow> bool" where
  "accepts w r event =
     (container w \<and> button event = 0 \<and>
      \<not> (js_lt (pageX event) (rect_left r) \<or> js_ge (pageX event) (rect_right r) \<or>
         js_lt (pageY event) (rect_top r) \<or> js_ge (pageY event) (rect_bottom r)))"

text \<open>
  A gesture is under way with the handler pair \<open>g\<close>: the pair is the one
  \<^verbatim>\<open>this._handlers\<close> holds and the only one listening on the window.
\<close>

definition tracking :: "nat \<Rightarrow> component \<Rightarrow> bool" where
  "tracking g w =
     (handlers w = Some g \<and> mousemoveListeners w = [g] \<and> mouseupListeners w = [g] \<and>
      closures w g \<noteq> None)"

section \<open>The scenario of the specification\<close>

text \<open>
  A container 1000 pixels wide at the left edge of the page, a committed range from 0 to
  1000 milliseconds, a threshold of 50 and a zero offset of 50.
\<close>

definition scenarioRect :: rect where
  "scenarioRect = \<lparr>rect_left = Fin 0, rect_top = Fin 0, rect_right = Fin 1000,
                    rect_bottom = Fin 40, rect_width = Fin 1000\<rparr>"

definition scenarioRange :: range where
  "scenarioRange = \<lparr>range_start = Fin 0, range_end = Fin 1000\<rparr>"

definition scenarioProps :: "previewSelection \<Rightarrow> props" where
  "scenarioProps sel =
     \<lparr>width = Fin 1000, previewSelection = sel, committedRange = scenarioRange,
      zeroAt = Fin 50, minSelectionStartWidth = Fin 50\<rparr>"

definition mouseAt :: "real \<Rightarrow> mouseEvent" where
  "mouseAt x = \<lparr>button = 0, pageX = Fin x, pageY = Fin 10\<rparr>"

text \<open>The variables of the closures after a press at pixel \<open>x\<close>.\<close>

definition pressedAt :: "real \<Rightarrow> bool \<Rightarrow> closure" where
  "pressedAt x selecting =
     \<lparr>cap_rect = scenarioRect, cap_committedRange = scenarioRange,
      cap_minSelectionStartWidth = Fin 50,
      mouseDownTime = timeAt (mouseAt x) scenarioRect scenarioRange,
      isRangeSelecting = selecting\<rparr>"

text \<open>A mounted component with no gesture under way.\<close>

definition idle :: component where
  "idle = \<lparr>container = True, handlers = None, hoverLocation = None,
           closures = (\<lambda>g. None), nextClosure = 0,
           mousemoveListeners = [], mouseupListeners = []\<rparr>"

text \<open>The component after a press at pixel \<open>x\<close> of the scenario's container.\<close>

definition pressed :: "real \<Rightarrow> component" where
  "pressed x = fst (onMouseDown (scenarioProps NoSelection) scenarioRect (mouseAt x) idle)"

text \<open>A content rectangle of no width: its right edge is its left edge.\<close>

definition flatRect :: rect where
  "flatRect = \<lparr>rect_left = Fin 0, rect_top = Fin 0, rect_right = Fin 0,
                 rect_bottom = Fin 40, rect_width = Fin 0\<rparr>"

section \<open>Rounding\<close>

text \<open>
  The numbers of the source are binary64 values: an arithmetic operation returns the
  representable number nearest to the exact result, and of two equally near ones the
  one with the even significand. \<open>fl\<close> is that rounding for significands of 53 bits;
  the exponent is not bounded, so overflow to infinity and subnormal numbers are left
  out. \<open>rne\<close> rounds to the nearest integer, ties to even, and \<open>binade x\<close> is the exponent
  \<open>k\<close> with \<open>2\<^sup>k \<le> \<bar>x\<bar> < 2\<^sup>k\<^sup>+\<^sup>1\<close>.
\<close>

definition rne :: "real \<Rightarrow> int" where
  "rne y = (let n = \<lfloor>y\<rfloor>; r = y - of_int n
            in if r < 1 / 2 then n else if 1 / 2 < r then n + 1
               else if even n then n else n + 1)"

definition binade :: "real \<Rightarrow> int" where
  "binade x = \<lfloor>log 2 \<bar>x\<bar>\<rfloor>"

definition fl :: "real \<Rightarrow> real" where
  "fl x = (if x = 0 then 0
           else of_int (rne (x / 2 powr (of_int (binade x) - 52)))
                  * 2 powr (of_int (binade x) - 52))"


section \<open>Arithmetic on finite numbers\<close>

lemma js_sub_Fin [simp]: "js_sub (Fin a) (Fin b) = Fin (a - b)"
  by (simp add: js_sub_def)

lemma js_ge_Fin [simp]: "js_ge (Fin a) (Fin b) = (b \<le> a)"
  by (auto simp: js_ge_def)

lemma js_gt_Fin [simp]: "js_gt (Fin a) (Fin b) = (b < a)"
  by (simp add: js_gt_def)

lemma js_le_Fin [simp]: "js_le (Fin a) (Fin b) = (a \<le> b)"
  by (simp add: js_le_def)

lemma Math_min_Fin [simp]: "Math_min (Fin a) (Fin b) = Fin (min a b)"
  by (auto simp: Math_min_def)

lemma Math_max_Fin [simp]: "Math_max (Fin a) (Fin b) = Fin (max a b)"
  by (auto simp: Math_max_def)

text \<open>On bounds in order, the package's \<open>clamp\<close> is the usual one.\<close>

lemma clamp_Fin: "lo \<le> hi \<Longrightarrow> clamp (Fin v) (Fin lo) (Fin hi) = Fin (max lo (min hi v))"
  by (auto simp: clamp_def)

lemma pixelToTime_Fin:
  "w \<noteq> 0 \<Longrightarrow>
   pixelToTime (Fin x) (Fin w) \<lparr>range_start = Fin s, range_end = Fin e\<rparr>
     = Fin (x / w * (e - s) + s)"
  by (simp add: pixelToTime_def)


lemma timeAt_scenario [simp]: "timeAt (mouseAt x) scenarioRect scenarioRange = Fin x"
  by (simp add: timeAt_def mouseAt_def scenarioRect_def scenarioRange_def)

section \<open>Creating a selection\<close>

text \<open>
  C3. A pointer move of a new-selection gesture proposes
  \<open>Selection start end\<close> with \<open>isModifying\<close> set exactly when the gesture is active
  already or the clamped span \<open>end - start\<close> is at least \<open>minSelectionStartWidth\<close>, and
  proposes nothing otherwise; the gesture is active afterwards exactly when it has
  proposed. With a threshold of 50, a span of 49 proposes nothing and a span of exactly
  50 proposes one selection.
\<close>

theorem mouseMoveHandler_threshold:
  "snd (mouseMoveHandler c event) =
     (let t = timeAt event (cap_rect c) (cap_committedRange c)
      in if isRangeSelecting c \<or>
            js_ge (js_sub (newSelectionEnd c t) (newSelectionStart c t))
                  (cap_minSelectionStartWidth c)
         then [UpdatePreviewSelection
                 (Selection (newSelectionStart c t) (newSelectionEnd c t) True)]
         else [])
   \<and> isRangeSelecting (fst (mouseMoveHandler c event)) =
       (let t = timeAt event (cap_rect c) (cap_committedRange c)
        in isRangeSelecting c \<or>
           js_ge (js_sub (newSelectionEnd c t) (newSelectionStart c t))
                 (cap_minSelectionStartWidth c))
   \<and> snd (mouseMoveHandler (pressedAt 100 False) (mouseAt 149)) = []
   \<and> snd (mouseMoveHandler (pressedAt 100 False) (mouseAt 150))
       = [UpdatePreviewSelection (Selection (Fin 100) (Fin 150) True)]"
proof -
  have active: "isRangeSelecting (fst (mouseMoveHandler c event)) =
       (let t = timeAt event (cap_rect c) (cap_committedRange c)
        in isRangeSelecting c \<or>
           js_ge (js_sub (newSelectionEnd c t) (newSelectionStart c t))
                 (cap_minSelectionStartWidth c))"
    by (simp add: mouseMoveHandler_def newSelectionStart_def newSelectionEnd_def Let_def)
  have general: "snd (mouseMoveHandler c event) =
     (let t = timeAt event (cap_rect c) (cap_committedRange c)
      in if isRangeSelecting c \<or>
            js_ge (js_sub (newSelectionEnd c t) (newSelectionStart c t))
                  (cap_minSelectionStartWidth c)
         then [UpdatePreviewSelection
                 (Selection (newSelectionStart c t) (newSelectionEnd c t) True)]
         else [])"
    by (simp add: mouseMoveHandler_def newSelectionStart_def newSelectionEnd_def Let_def)
  have below: "snd (mouseMoveHandler (pressedAt 100 False) (mouseAt 149)) = []"
    by (simp add: mouseMoveHandler_def pressedAt_def Let_def)
       (simp add: scenarioRange_def clamp_def)
  have reached: "snd (mouseMoveHandler (pressedAt 100 False) (mouseAt 150))
       = [UpdatePreviewSelection (Selection (Fin 100) (Fin 150) True)]"
    by (simp add: mouseMoveHandler_def pressedAt_def Let_def)
       (simp add: scenarioRange_def clamp_def)
  from general active below reached show ?thesis by blast
qed

section \<open>Reading the effects of a sequence\<close>

lemma updatesOf_append: "updatesOf (xs @ ys) = updatesOf xs @ updatesOf ys"
  by (induction xs rule: updatesOf.induct) simp_all

lemma installsOf_append: "installsOf (xs @ ys) = installsOf xs @ installsOf ys"
  by (induction xs rule: installsOf.induct) simp_all

lemma uninstallsOf_append: "uninstallsOf (xs @ ys) = uninstallsOf xs @ uninstallsOf ys"
  by (induction xs rule: uninstallsOf.induct) simp_all

section \<open>Pressing and releasing\<close>

lemma uninstall_tracked:
  assumes "handlers w = Some g"
  shows "uninstallMoveAndUpHandlers w =
           (w\<lparr>mousemoveListeners := removeAll g (mousemoveListeners w),
              mouseupListeners := removeAll g (mouseupListeners w)\<rparr>,
            [RemoveEventListener Mousemove g, RemoveEventListener Mouseup g])"
  using assms by (simp add: uninstallMoveAndUpHandlers_def removeEventListener_def)

lemma accepts_scenario: "0 \<le> x \<Longrightarrow> x < 1000 \<Longrightarrow> accepts idle scenarioRect (mouseAt x)"
  by (simp add: accepts_def idle_def scenarioRect_def mouseAt_def)

lemma onMouseDown_rejected:
  "\<not> accepts w r event \<Longrightarrow> onMouseDown p r event w = (w, [])"
  by (auto simp: accepts_def onMouseDown_def)

lemma onMouseDown_accepted:
  assumes "accepts w r event"
  shows "onMouseDown p r event w =
    (w\<lparr>closures := (closures w)(nextClosure w \<mapsto>
           \<lparr>cap_rect = r, cap_committedRange = committedRange p,
            cap_minSelectionStartWidth = minSelectionStartWidth p,
            mouseDownTime = timeAt event r (committedRange p),
            isRangeSelecting = False\<rparr>),
        nextClosure := Suc (nextClosure w),
        handlers := Some (nextClosure w),
        mousemoveListeners := addEventListener (nextClosure w) (mousemoveListeners w),
        mouseupListeners := addEventListener (nextClosure w) (mouseupListeners w)\<rparr>,
     [PreventDefault, AddEventListener Mousemove (nextClosure w),
      AddEventListener Mouseup (nextClosure w)])"
  using assms
  by (simp add: accepts_def onMouseDown_def installMoveAndUpHandlers_def Let_def)

lemma onMouseDown_tracking:
  assumes "accepts w r event" "mousemoveListeners w = []" "mouseupListeners w = []"
  shows "tracking (nextClosure w) (fst (onMouseDown p r event w))"
  using assms
  by (simp add: onMouseDown_accepted tracking_def addEventListener_def)

lemma pressed_eq:
  assumes "0 \<le> x" and "x < 1000"
  shows "pressed x = idle\<lparr>closures := (closures idle)(0 \<mapsto> pressedAt x False),
        nextClosure := Suc 0,
        handlers := Some 0,
        mousemoveListeners := [0],
        mouseupListeners := [0]\<rparr>"
  unfolding pressed_def
  by (simp add: onMouseDown_accepted accepts_scenario assms pressedAt_def scenarioProps_def)
     (simp add: idle_def addEventListener_def)

lemma handlers_pressed: "0 \<le> x \<Longrightarrow> x < 1000 \<Longrightarrow> handlers (pressed x) = Some 0"
  by (simp add: pressed_eq)

text \<open>
  C8. The release of a gesture that has crossed the threshold proposes exactly one
  selection, with \<open>isModifying\<close> unset and the pair that a pointer move at the same
  position proposes, stops the propagation of the release event, and removes the
  gesture's two listeners from the window.
\<close>

theorem mouseUpHandler_finishes_selection:
  assumes "isRangeSelecting c" and "handlers w = Some g"
  shows "case mouseUpHandler c p event w of (w', effs) \<Rightarrow>
           (let t = timeAt event (cap_rect c) (cap_committedRange c)
            in updatesOf effs = [Selection (newSelectionStart c t) (newSelectionEnd c t) False]
             \<and> snd (mouseMoveHandler c event)
                 = [UpdatePreviewSelection
                      (Selection (newSelectionStart c t) (newSelectionEnd c t) True)])
         \<and> StopPropagation \<in> set effs
         \<and> installsOf effs = []
         \<and> uninstallsOf effs = [(Mousemove, g), (Mouseup, g)]
         \<and> g \<notin> set (mousemoveListeners w') \<and> g \<notin> set (mouseupListeners w')"
  using assms
  by (simp add: mouseUpHandler_def mouseMoveHandler_def uninstall_tracked Let_def
        newSelectionStart_def newSelectionEnd_def)

theorem mouseUpHandler_finishes_selection_witness:
  "updatesOf (snd (mouseUpHandler (pressedAt 100 True) (scenarioProps NoSelection)
      (mouseAt 300) (pressed 100))) = [Selection (Fin 100) (Fin 300) False]
   \<and> StopPropagation \<in> set (snd (mouseUpHandler (pressedAt 100 True)
        (scenarioProps NoSelection) (mouseAt 300) (pressed 100)))
   \<and> mousemoveListeners (fst (mouseUpHandler (pressedAt 100 True)
        (scenarioProps NoSelection) (mouseAt 300) (pressed 100))) = []
   \<and> mouseupListeners (fst (mouseUpHandler (pressedAt 100 True)
        (scenarioProps NoSelection) (mouseAt 300) (pressed 100))) = []"
proof -
  have s: "isRangeSelecting (pressedAt 100 True)"
    by (simp add: pressedAt_def)
  have h: "handlers (pressed 100) = Some 0"
    by (simp add: handlers_pressed)
  have pair: "newSelectionStart (pressedAt 100 True) (Fin 300) = Fin 100"
    "newSelectionEnd (pressedAt 100 True) (Fin 300) = Fin 300"
    by (simp_all add: newSelectionStart_def newSelectionEnd_def pressedAt_def)
       (simp_all add: scenarioRange_def clamp_def)
  have ls: "mousemoveListeners (pressed 100) = [0]" "mouseupListeners (pressed 100) = [0]"
    by (simp_all add: pressed_eq)
  have same: "cap_rect (pressedAt 100 True) = scenarioRect"
    "cap_committedRange (pressedAt 100 True) = scenarioRange"
    by (simp_all add: pressedAt_def)
  from mouseUpHandler_finishes_selection [OF s h,
      where p = "scenarioProps NoSelection" and event = "mouseAt 300"]
  show ?thesis
    using pair ls same
    by (auto simp: split_beta Let_def mouseUpHandler_def uninstall_tracked h s)
qed

text \<open>
  C5. The release of a gesture that never crossed the threshold: with a preview
  selection present and the release time \<open>t\<close> inside \<open>[selectionStart, selectionEnd)\<close>
  nothing is proposed; with \<open>t\<close> outside that interval \<open>NoSelection\<close> is proposed; with no
  selection present nothing is proposed. On every branch the release event is left to
  propagate and the gesture's two listeners are removed from the window.
\<close>

theorem mouseUpHandler_click:
  assumes "\<not> isRangeSelecting c" and "handlers w = Some g"
  shows "case mouseUpHandler c p event w of (w', effs) \<Rightarrow>
           (previewSelection p = Selection (Fin s) (Fin e) m \<and>
            timeAt event (cap_rect c) (cap_committedRange c) = Fin t \<longrightarrow>
              (s \<le> t \<and> t < e \<longrightarrow> updatesOf effs = []) \<and>
              (t < s \<or> e \<le> t \<longrightarrow> updatesOf effs = [NoSelection]))
         \<and> (previewSelection p = NoSelection \<longrightarrow> updatesOf effs = [])
         \<and> StopPropagation \<notin> set effs
         \<and> installsOf effs = []
         \<and> uninstallsOf effs = [(Mousemove, g), (Mouseup, g)]
         \<and> g \<notin> set (mousemoveListeners w') \<and> g \<notin> set (mouseupListeners w')"
  using assms
  by (auto simp: mouseUpHandler_def uninstall_tracked Let_def split: previewSelection.split)

theorem mouseUpHandler_click_witness:
  "updatesOf (snd (mouseUpHandler (pressedAt 500 False)
      (scenarioProps (Selection (Fin 100) (Fin 300) False)) (mouseAt 500) (pressed 500)))
     = [NoSelection]
   \<and> updatesOf (snd (mouseUpHandler (pressedAt 200 False)
      (scenarioProps (Selection (Fin 100) (Fin 300) False)) (mouseAt 200) (pressed 200))) = []
   \<and> StopPropagation \<notin> set (snd (mouseUpHandler (pressedAt 500 False)
      (scenarioProps (Selection (Fin 100) (Fin 300) False)) (mouseAt 500) (pressed 500)))
   \<and> uninstallsOf (snd (mouseUpHandler (pressedAt 500 False)
      (scenarioProps (Selection (Fin 100) (Fin 300) False)) (mouseAt 500) (pressed 500)))
     = [(Mousemove, 0), (Mouseup, 0)]"
proof -
  have n: "\<not> isRangeSelecting (pressedAt x False)" for x
    by (simp add: pressedAt_def)
  have h: "handlers (pressed 500) = Some 0" "handlers (pressed 200) = Some 0"
    by (simp_all add: handlers_pressed)
  have sel: "previewSelection (scenarioProps (Selection (Fin 100) (Fin 300) False))
      = Selection (Fin 100) (Fin 300) False"
    by (simp add: scenarioProps_def)
  have tm: "timeAt (mouseAt x) (cap_rect (pressedAt y False))
      (cap_committedRange (pressedAt y False)) = Fin x" for x y
    by (simp add: pressedAt_def)
  note outside = mouseUpHandler_click [OF n [of 500] h(1),
      where p = "scenarioProps (Selection (Fin 100) (Fin 300) False)"
        and s = 100 and e = 300 and m = False and event = "mouseAt 500" and t = 500]
  note inside = mouseUpHandler_click [OF n [of 200] h(2),
      where p = "scenarioProps (Selection (Fin 100) (Fin 300) False)"
        and s = 100 and e = 300 and m = False and event = "mouseAt 200" and t = 200]
  from outside inside show ?thesis
    using sel tm by (simp add: split_beta)
qed

section \<open>The listeners over a whole gesture\<close>

lemma windowMouseMove_tracking:
  assumes "tracking g w"
  shows "tracking g (fst (windowMouseMove event w))
       \<and> installsOf (snd (windowMouseMove event w)) = []
       \<and> uninstallsOf (snd (windowMouseMove event w)) = []"
proof -
  from assms obtain c where c: "closures w g = Some c" and l: "mousemoveListeners w = [g]"
    by (auto simp: tracking_def)
  show ?thesis
    using assms c l
    by (auto simp: windowMouseMove_def fireMouseMove_def mouseMoveHandler_def tracking_def
          Let_def split: prod.splits)
qed

lemma windowMouseMoves_tracking:
  "tracking g w \<Longrightarrow>
   tracking g (fst (windowMouseMoves events w))
   \<and> installsOf (snd (windowMouseMoves events w)) = []
   \<and> uninstallsOf (snd (windowMouseMoves events w)) = []"
proof (induction events arbitrary: w)
  case Nil
  then show ?case by simp
next
  case (Cons event events)
  from windowMouseMove_tracking [OF Cons.prems, of event]
  have step: "tracking g (fst (windowMouseMove event w))"
    and i: "installsOf (snd (windowMouseMove event w)) = []"
    and u: "uninstallsOf (snd (windowMouseMove event w)) = []"
    by simp_all
  from Cons.IH [OF step] i u show ?case
    by (simp add: split_beta installsOf_append uninstallsOf_append)
qed

lemma mouseUpHandler_uninstalls:
  assumes "handlers w = Some g"
  shows "case mouseUpHandler c p event w of (w', effs) \<Rightarrow>
           w' = w\<lparr>mousemoveListeners := removeAll g (mousemoveListeners w),
                  mouseupListeners := removeAll g (mouseupListeners w)\<rparr>
         \<and> installsOf effs = []
         \<and> uninstallsOf effs = [(Mousemove, g), (Mouseup, g)]"
  using assms
  by (simp add: mouseUpHandler_def uninstall_tracked Let_def uninstallsOf_append installsOf_append
        split: previewSelection.split)

lemma windowMouseUp_tracking:
  assumes "tracking g w"
  shows "case windowMouseUp p event w of (w', effs) \<Rightarrow>
           mousemoveListeners w' = [] \<and> mouseupListeners w' = []
         \<and> installsOf effs = []
         \<and> uninstallsOf effs = [(Mousemove, g), (Mouseup, g)]"
proof -
  from assms obtain c where c: "closures w g = Some c" and l: "mouseupListeners w = [g]"
    and m: "mousemoveListeners w = [g]" and h: "handlers w = Some g"
    by (auto simp: tracking_def)
  from mouseUpHandler_uninstalls [OF h, of c p event] show ?thesis
    using c l m by (auto simp: windowMouseUp_def fireMouseUp_def split: prod.splits)
qed

lemma windowMouseMoves_idle:
  "mousemoveListeners w = [] \<Longrightarrow> windowMouseMoves events w = (w, [])"
  by (induction events) (simp_all add: windowMouseMove_def)

lemma windowMouseUp_idle:
  "mouseupListeners w = [] \<Longrightarrow> windowMouseUp p event w = (w, [])"
  by (simp add: windowMouseUp_def)

text \<open>
  C9. A new-selection gesture that starts with no listener of the component on the
  window (an accepted press, any pointer moves, a release, whatever the release does
  to the selection) registers the move listener and the up listener once each, at the
  press, and removes each once, at the release; afterwards none is left on the window.
  Uninstalling with no handlers recorded does nothing, and uninstalling a second time
  leaves the window as the first did.
\<close>

theorem gesture_installs_and_uninstalls_once:
  assumes "accepts w r down" and "mousemoveListeners w = []" and "mouseupListeners w = []"
  shows "(case gesture p r down moves p' up w of (w', effs) \<Rightarrow>
            installsOf effs = [(Mousemove, nextClosure w), (Mouseup, nextClosure w)]
          \<and> uninstallsOf effs = [(Mousemove, nextClosure w), (Mouseup, nextClosure w)]
          \<and> mousemoveListeners w' = [] \<and> mouseupListeners w' = [])
       \<and> (handlers v = None \<longrightarrow> uninstallMoveAndUpHandlers v = (v, []))
       \<and> fst (uninstallMoveAndUpHandlers (fst (uninstallMoveAndUpHandlers v)))
           = fst (uninstallMoveAndUpHandlers v)"
proof -
  let ?g = "nextClosure w"
  obtain w1 effs1 where d: "onMouseDown p r down w = (w1, effs1)" by force
  obtain w2 effs2 where m: "windowMouseMoves moves w1 = (w2, effs2)" by force
  obtain w3 effs3 where u: "windowMouseUp p' up w2 = (w3, effs3)" by force
  have t1: "tracking ?g w1"
    using onMouseDown_tracking [OF assms, of p] d by simp
  have e1: "effs1 = [PreventDefault, AddEventListener Mousemove ?g, AddEventListener Mouseup ?g]"
    using onMouseDown_accepted [OF assms(1), of p] d by simp
  have t2: "tracking ?g w2" and i2: "installsOf effs2 = []" and u2: "uninstallsOf effs2 = []"
    using windowMouseMoves_tracking [OF t1, of moves] m by simp_all
  have fin: "mousemoveListeners w3 = [] \<and> mouseupListeners w3 = [] \<and> installsOf effs3 = []
       \<and> uninstallsOf effs3 = [(Mousemove, ?g), (Mouseup, ?g)]"
    using windowMouseUp_tracking [OF t2, of p' up] u by simp
  have run: "gesture p r down moves p' up w = (w3, effs1 @ effs2 @ effs3)"
    by (simp add: gesture_def d m u)
  have whole: "case gesture p r down moves p' up w of (w', effs) \<Rightarrow>
            installsOf effs = [(Mousemove, ?g), (Mouseup, ?g)]
          \<and> uninstallsOf effs = [(Mousemove, ?g), (Mouseup, ?g)]
          \<and> mousemoveListeners w' = [] \<and> mouseupListeners w' = []"
    using run e1 i2 u2 fin by (simp add: installsOf_append uninstallsOf_append)
  have absent: "handlers v = None \<longrightarrow> uninstallMoveAndUpHandlers v = (v, [])"
    by (simp add: uninstallMoveAndUpHandlers_def)
  have twice: "fst (uninstallMoveAndUpHandlers (fst (uninstallMoveAndUpHandlers v)))
           = fst (uninstallMoveAndUpHandlers v)"
    by (cases "handlers v") (simp_all add: uninstallMoveAndUpHandlers_def removeEventListener_def)
  from whole absent twice show ?thesis by blast
qed

theorem gesture_installs_and_uninstalls_once_witness:
  "accepts idle scenarioRect (mouseAt 100)
   \<and> installsOf (snd (gesture (scenarioProps NoSelection) scenarioRect (mouseAt 100)
         [mouseAt 100, mouseAt 300] (scenarioProps NoSelection) (mouseAt 300) idle))
       = [(Mousemove, 0), (Mouseup, 0)]
   \<and> uninstallsOf (snd (gesture (scenarioProps NoSelection) scenarioRect (mouseAt 100)
         [mouseAt 100, mouseAt 300] (scenarioProps NoSelection) (mouseAt 300) idle))
       = [(Mousemove, 0), (Mouseup, 0)]
   \<and> mousemoveListeners (fst (gesture (scenarioProps NoSelection) scenarioRect (mouseAt 100)
         [mouseAt 100, mouseAt 300] (scenarioProps NoSelection) (mouseAt 300) idle)) = []
   \<and> uninstallMoveAndUpHandlers idle = (idle, [])"
proof -
  have a: "accepts idle scenarioRect (mouseAt 100)"
    by (simp add: accepts_scenario)
  have l: "mousemoveListeners idle = []" "mouseupListeners idle = []" "handlers idle = None"
    "nextClosure idle = 0"
    by (simp_all add: idle_def)
  from gesture_installs_and_uninstalls_once [OF a l(1,2),
      where p = "scenarioProps NoSelection" and moves = "[mouseAt 100, mouseAt 300]"
        and p' = "scenarioProps NoSelection" and up = "mouseAt 300" and v = idle]
  show ?thesis using a l by (simp add: split_beta)
qed

text \<open>
  The scenario of the specification as one run: a press at pixel 100, a move that stays
  there, a move to pixel 300 and a release at pixel 300.
\<close>

lemma scenario_trace:
  "snd (gesture (scenarioProps NoSelection) scenarioRect (mouseAt 100)
         [mouseAt 100, mouseAt 300] (scenarioProps NoSelection) (mouseAt 300) idle)
   = [PreventDefault, AddEventListener Mousemove 0, AddEventListener Mouseup 0,
      UpdatePreviewSelection (Selection (Fin 100) (Fin 300) True),
      UpdatePreviewSelection (Selection (Fin 100) (Fin 300) False),
      StopPropagation, RemoveEventListener Mousemove 0, RemoveEventListener Mouseup 0]"
proof -
  let ?active = "(pressed 100)\<lparr>closures := (closures (pressed 100))(0 \<mapsto> pressedAt 100 True)\<rparr>"
  have eq: "pressed 100 = idle\<lparr>closures := (closures idle)(0 \<mapsto> pressedAt 100 False),
        nextClosure := Suc 0, handlers := Some 0,
        mousemoveListeners := [0], mouseupListeners := [0]\<rparr>"
    by (rule pressed_eq) simp_all
  have down: "onMouseDown (scenarioProps NoSelection) scenarioRect (mouseAt 100) idle
      = (pressed 100,
         [PreventDefault, AddEventListener Mousemove 0, AddEventListener Mouseup 0])"
    by (simp add: pressed_def onMouseDown_accepted accepts_scenario)
       (simp add: idle_def)
  have still: "mouseMoveHandler (pressedAt 100 False) (mouseAt 100) = (pressedAt 100 False, [])"
    by (simp add: mouseMoveHandler_def pressedAt_def Let_def)
       (simp add: scenarioRange_def clamp_def)
  have drag: "mouseMoveHandler (pressedAt 100 False) (mouseAt 300)
      = (pressedAt 100 True, [UpdatePreviewSelection (Selection (Fin 100) (Fin 300) True)])"
    by (simp add: mouseMoveHandler_def pressedAt_def Let_def)
       (simp add: scenarioRange_def clamp_def)
  have move1: "windowMouseMove (mouseAt 100) (pressed 100) = (pressed 100, [])"
    by (simp add: windowMouseMove_def fireMouseMove_def eq still)
  have move2: "windowMouseMove (mouseAt 300) (pressed 100)
      = (?active, [UpdatePreviewSelection (Selection (Fin 100) (Fin 300) True)])"
    by (simp add: windowMouseMove_def fireMouseMove_def eq drag)
  have release: "snd (mouseUpHandler (pressedAt 100 True) (scenarioProps NoSelection)
        (mouseAt 300) ?active)
      = [UpdatePreviewSelection (Selection (Fin 100) (Fin 300) False), StopPropagation,
         RemoveEventListener Mousemove 0, RemoveEventListener Mouseup 0]"
    by (simp add: mouseUpHandler_def uninstallMoveAndUpHandlers_def eq pressedAt_def Let_def)
       (simp add: scenarioRange_def clamp_def)
  have up: "snd (windowMouseUp (scenarioProps NoSelection) (mouseAt 300) ?active)
      = [UpdatePreviewSelection (Selection (Fin 100) (Fin 300) False), StopPropagation,
         RemoveEventListener Mousemove 0, RemoveEventListener Mouseup 0]"
    using release
    by (simp add: windowMouseUp_def fireMouseUp_def eq split_beta)
  show ?thesis
    using up by (simp add: gesture_def down move1 move2 split_beta)
qed

section \<open>The range of the proposed selections\<close>

text \<open>
  A new-selection gesture keeps its proposals inside a committed range that is in order:
  both ends are clamped to it and the start is the smaller one.
\<close>

lemma newSelection_within_committedRange:
  assumes "cap_committedRange c = \<lparr>range_start = Fin cs, range_end = Fin ce\<rparr>"
    and "mouseDownTime c = Fin d" and "cs \<le> ce"
  shows "newSelectionStart c (Fin t) = Fin (max cs (min ce (min d t)))
       \<and> newSelectionEnd c (Fin t) = Fin (max cs (min ce (max d t)))
       \<and> cs \<le> max cs (min ce (min d t))
       \<and> max cs (min ce (min d t)) \<le> max cs (min ce (max d t))
       \<and> max cs (min ce (max d t)) \<le> ce"
  using assms by (auto simp: newSelectionStart_def newSelectionEnd_def clamp_Fin)

text \<open>
  A handle drag does so as long as the moved start stays at or below the end of the
  committed range.
\<close>

lemma makeOnMove_within_committedRange:
  assumes "committedRange p = \<lparr>range_start = Fin cs, range_end = Fin ce\<rparr>"
    and "cs \<le> ce" and "fn delta = \<lparr>startDelta = Fin a, endDelta = Fin b\<rparr>"
    and "delta = js_mul (js_div dx (width p)) (Fin (ce - cs))"
    and "selectionStart orig = Fin os" and "selectionEnd orig = Fin oe"
    and "os + a \<le> ce"
  shows "makeOnMove fn p orig dx dy m =
           [UpdatePreviewSelection
              (Selection (Fin (max cs (os + a)))
                 (Fin (max (max cs (os + a)) (min ce (oe + b)))) m)]
       \<and> cs \<le> max cs (os + a)
       \<and> max cs (os + a) \<le> max (max cs (os + a)) (min ce (oe + b))
       \<and> max (max cs (os + a)) (min ce (oe + b)) \<le> ce"
proof -
  have "max cs (os + a) \<le> ce" using assms(2,7) by simp
  then show ?thesis
    using assms by (simp add: makeOnMove_def Let_def clamp_Fin)
qed

text \<open>
  C1. Every proposed selection should have \<open>selectionStart \<le> selectionEnd\<close> with both
  inside the committed range. The drag of a handle bounds the new start from below only:
  in the scenario, with the selection from 100 to 300, dragging the start handle 950
  pixels to the right proposes the start 1050 and the end 1000, a start beyond the
  committed range and beyond the end.
\<close>

theorem rangeStartOnMove_leaves_committedRange:
  "rangeStartOnMove (scenarioProps (Selection (Fin 100) (Fin 300) False))
     \<lparr>selectionStart = Fin 100, selectionEnd = Fin 300\<rparr> (Fin 950) (Fin 0) True
   = [UpdatePreviewSelection (Selection (Fin 1050) (Fin 1000) True)]
   \<and> js_gt (Fin 1050) (range_end (committedRange (scenarioProps NoSelection)))"
  by (simp add: rangeStartOnMove_def makeOnMove_def scenarioProps_def scenarioRange_def clamp_def)

section \<open>Dragging a handle\<close>

text \<open>
  On finite bounds in order the two clamps agree, so a handle callback proposes the pair
  of the specification's formula whenever the moved start stays at or below the end of
  a committed range that is in order.
\<close>

lemma clampTo_Fin [simp]: "clampTo (Fin v) (Fin lo) (Fin hi) = Fin (max lo (min v hi))"
  by (simp add: clampTo_def)

lemma onMove_is_handleDrag_within:
  assumes "committedRange p = \<lparr>range_start = Fin cs, range_end = Fin ce\<rparr>"
    and "js_mul (js_div dx (width p)) (Fin (ce - cs)) = Fin d"
    and "selectionStart orig = Fin os" and "selectionEnd orig = Fin oe"
    and "cs \<le> ce" and "os \<le> ce" and "os + d \<le> ce"
  shows "onMoveOf kind p orig dx dy modifying =
     (case handleDrag kind (width p) (committedRange p)
             (selectionStart orig) (selectionEnd orig) dx of
        (newStart, newEnd) \<Rightarrow> [UpdatePreviewSelection (Selection newStart newEnd modifying)])"
proof -
  have a: "clamp (Fin v) (Fin (max cs (os + d))) (Fin ce) = Fin (max (max cs (os + d)) (min v ce))"
    for v
    using assms(5,7) by (simp add: clamp_Fin min.commute)
  have b: "clamp (Fin v) (Fin (max cs os)) (Fin ce) = Fin (max (max cs os) (min v ce))" for v
    using assms(5,6) by (simp add: clamp_Fin min.commute)
  show ?thesis
    using assms(1-4)
    by (cases kind)
       (simp_all add: rangeStartOnMove_def moveRangeOnMove_def rangeEndOnMove_def
          makeOnMove_def handleDrag_def Let_def a b)
qed

text \<open>
  In that case, dragging the end handle to the left of the original start proposes an
  end equal to the start.
\<close>

lemma rangeEndOnMove_past_start:
  assumes "committedRange p = \<lparr>range_start = Fin cs, range_end = Fin ce\<rparr>"
    and "selectionStart orig = Fin os" and "selectionEnd orig = Fin oe"
    and "cs \<le> ce" and "os \<le> ce"
    and "js_lt (js_add (Fin oe) (js_mul (js_div dx (width p)) (Fin (ce - cs)))) (Fin os)"
  shows "rangeEndOnMove p orig dx dy modifying =
            [UpdatePreviewSelection (Selection (Fin (max cs os)) (Fin (max cs os)) modifying)]"
proof -
  have past: "clamp v (Fin (max cs os)) (Fin ce) = Fin (max cs os)"
    if "js_lt v (Fin os)" for v
    using that assms(4,5) by (cases v) (auto simp: clamp_def js_gt_def)
  show ?thesis
    using assms past by (auto simp: rangeEndOnMove_def makeOnMove_def Let_def)
qed

text \<open>
  C2. Every handle drag should propose the pair of the specification's formula, whose
  end is never below its start; in particular, dragging the end handle to the left of
  the start should give an end equal to the start. The callbacks bound the new start
  from below only, and a start beyond the committed end makes the package's \<open>clamp\<close>
  take its branch for bounds out of order. In the scenario, dragging the move handle of
  the selection from 100 to 300 by 950 pixels proposes the selection from 1050 to 1050;
  dragging the end handle of that selection 10 pixels to the left then proposes the
  start 1050 and the end 1040, where the formula gives 1050 and 1050.
\<close>

theorem rangeEndOnMove_end_below_start:
  "moveRangeOnMove (scenarioProps (Selection (Fin 100) (Fin 300) False))
     \<lparr>selectionStart = Fin 100, selectionEnd = Fin 300\<rparr> (Fin 950) (Fin 0) False
   = [UpdatePreviewSelection (Selection (Fin 1050) (Fin 1050) False)]
   \<and> rangeEndOnMove (scenarioProps (Selection (Fin 1050) (Fin 1050) False))
       \<lparr>selectionStart = Fin 1050, selectionEnd = Fin 1050\<rparr> (Fin (- 10)) (Fin 0) True
     = [UpdatePreviewSelection (Selection (Fin 1050) (Fin 1040) True)]
   \<and> handleDrag EndHandle (Fin 1000) scenarioRange (Fin 1050) (Fin 1050) (Fin (- 10))
     = (Fin 1050, Fin 1050)
   \<and> js_lt (Fin 1040) (Fin 1050)"
  by (simp add: moveRangeOnMove_def rangeEndOnMove_def makeOnMove_def handleDrag_def
        scenarioProps_def scenarioRange_def clamp_def Let_def)

section \<open>A container of no width\<close>

text \<open>
  C7. With a container of width zero, no update would be proposed on any pointer event,
  handle drags included, and no infinite or undefined time would reach a proposed
  selection. The handle callbacks have no such guard: with width 0, dragging the start
  handle 10 pixels proposes a selection that starts at infinity.
\<close>

theorem zero_width_handle_drag_counterexample:
  "rangeStartOnMove ((scenarioProps (Selection (Fin 100) (Fin 300) False))\<lparr>width := Fin 0\<rparr>)
     \<lparr>selectionStart = Fin 100, selectionEnd = Fin 300\<rparr> (Fin 10) (Fin 0) True
   = [UpdatePreviewSelection (Selection PInf (Fin 1000) True)]"
  by (simp add: rangeStartOnMove_def makeOnMove_def scenarioProps_def scenarioRange_def
        clamp_def js_signed_inf_def Math_max_def)

text \<open>
  With width 0 and no movement at all (a click on the start handle) the proposed start
  is not a number.
\<close>

lemma zero_width_handle_click:
  "rangeStartOnMove ((scenarioProps (Selection (Fin 100) (Fin 300) False))\<lparr>width := Fin 0\<rparr>)
     \<lparr>selectionStart = Fin 100, selectionEnd = Fin 300\<rparr> (Fin 0) (Fin 0) False
   = [UpdatePreviewSelection (Selection NaN (Fin 1000) False)]"
  by (simp add: rangeStartOnMove_def makeOnMove_def scenarioProps_def scenarioRange_def
        clamp_def js_signed_inf_def Math_max_def Let_def)

text \<open>
  C7, amended. When the content rectangle has width zero, so that its right edge is its
  left edge, a press at any finite position fails the bounds test: with no listener on
  the window before, the whole gesture of press, moves and release proposes nothing and
  changes nothing. A handle callback, whatever the width, proposes exactly one
  selection on each call.
\<close>

theorem zero_width_press_rejected:
  assumes "rect_width r = Fin 0" and "rect_left r = Fin l"
    and "rect_right r = js_add (rect_left r) (rect_width r)" and "pageX down = Fin x"
    and "mousemoveListeners w = []" and "mouseupListeners w = []"
  shows "gesture p r down moves p' up w = (w, [])
       \<and> (\<exists>s e. makeOnMove fn q orig dx dy m = [UpdatePreviewSelection (Selection s e m)])"
proof -
  have "\<not> accepts w r down"
    using assms(1-4) by (auto simp: accepts_def)
  then have "onMouseDown p r down w = (w, [])"
    by (rule onMouseDown_rejected)
  then have "gesture p r down moves p' up w = (w, [])"
    using assms(5,6) by (simp add: gesture_def windowMouseMoves_idle windowMouseUp_idle)
  moreover have "\<exists>s e. makeOnMove fn q orig dx dy m = [UpdatePreviewSelection (Selection s e m)]"
    by (simp add: makeOnMove_def Let_def)
  ultimately show ?thesis by blast
qed

theorem zero_width_press_rejected_witness:
  "gesture (scenarioProps NoSelection) flatRect (mouseAt 0) [mouseAt 10]
     (scenarioProps NoSelection) (mouseAt 10) idle = (idle, [])"
proof -
  have "rect_width flatRect = Fin 0" "rect_left flatRect = Fin 0"
    "rect_right flatRect = js_add (rect_left flatRect) (rect_width flatRect)"
    "pageX (mouseAt 0) = Fin 0" "mousemoveListeners idle = []" "mouseupListeners idle = []"
    by (simp_all add: flatRect_def mouseAt_def idle_def)
  from zero_width_press_rejected [OF this] show ?thesis by blast
qed

section \<open>The zoom button\<close>

text \<open>
  C6. A click on the zoom button with a preview selection present requests
  \<open>commitRange (selectionStart - zeroAt) (selectionEnd - zeroAt)\<close>: with the selection
  from 100 to 300 and a zero offset of 50 it requests the range from 50 to 250. With no
  selection present the click requests nothing.
\<close>

theorem zoomButtonOnClick_commits:
  "zoomButtonOnClick (p\<lparr>previewSelection := Selection s e m\<rparr>)
     = [StopPropagation, CommitRange (js_sub s (zeroAt p)) (js_sub e (zeroAt p))]
   \<and> zoomButtonOnClick (scenarioProps (Selection (Fin 100) (Fin 300) False))
     = [StopPropagation, CommitRange (Fin 50) (Fin 250)]
   \<and> zoomButtonOnClick (p\<lparr>previewSelection := NoSelection\<rparr>) = [StopPropagation]"
  by (simp add: zoomButtonOnClick_def scenarioProps_def)

text \<open>
  C10. Neither handler of the zoom button proposes a preview selection: with a
  selection present, all the click does is stop the event's propagation and request the
  commit.
\<close>

theorem zoom_proposes_no_preview:
  "updatesOf (zoomButtonOnClick p) = [] \<and> updatesOf zoomButtonOnMouseDown = []
   \<and> zoomButtonOnClick (p\<lparr>previewSelection := Selection s e m\<rparr>)
     = [StopPropagation, CommitRange (js_sub s (zeroAt p)) (js_sub e (zeroAt p))]"
  by (simp add: zoomButtonOnClick_def zoomButtonOnMouseDown_def split: previewSelection.split)

section \<open>Rounding to binary64\<close>

lemma rne_of_int [simp]: "rne (of_int n) = n"
  by (simp add: rne_def)

lemma rne_cases: "rne y = \<lfloor>y\<rfloor> \<or> rne y = \<lfloor>y\<rfloor> + 1"
  by (simp add: rne_def Let_def)

lemma rne_mono: "x \<le> y \<Longrightarrow> rne x \<le> rne y"
proof -
  assume xy: "x \<le> y"
  have fm: "\<lfloor>x\<rfloor> \<le> \<lfloor>y\<rfloor>" using xy by (rule floor_mono)
  show ?thesis
  proof (cases "\<lfloor>x\<rfloor> = \<lfloor>y\<rfloor>")
    case True
    then show ?thesis using xy by (auto simp: rne_def Let_def)
  next
    case False
    then have lt: "\<lfloor>x\<rfloor> + 1 \<le> \<lfloor>y\<rfloor>" using fm by simp
    have "rne x \<le> \<lfloor>x\<rfloor> + 1" using rne_cases [of x] by auto
    moreover have "\<lfloor>y\<rfloor> \<le> rne y" using rne_cases [of y] by auto
    ultimately show ?thesis using lt by linarith
  qed
qed

lemma rne_minus: "rne (- x) = - rne x"
proof (cases "x = of_int \<lfloor>x\<rfloor>")
  case True
  then obtain n where "x = of_int n" by blast
  then have "- x = of_int (- n)" by simp
  then show ?thesis using \<open>x = of_int n\<close> by (metis rne_of_int)
next
  case False
  then have lt: "of_int \<lfloor>x\<rfloor> < x" by (metis of_int_floor_le order_less_le)
  have fl: "\<lfloor>- x\<rfloor> = - \<lfloor>x\<rfloor> - 1"
  proof (rule floor_unique)
    show "of_int (- \<lfloor>x\<rfloor> - 1) \<le> - x"
      unfolding of_int_diff of_int_minus of_int_1 by linarith
    show "- x < of_int (- \<lfloor>x\<rfloor> - 1) + 1" using lt by simp
  qed
  show ?thesis
    using lt by (auto simp: rne_def Let_def fl)
qed

lemma binade_bounds:
  assumes "x \<noteq> 0"
  shows "2 powr of_int (binade x) \<le> \<bar>x\<bar>" and "\<bar>x\<bar> < 2 powr (of_int (binade x) + 1)"
  using assms floor_log_eq_powr_iff [of "\<bar>x\<bar>" 2 "binade x"]
  by (simp_all add: binade_def)

lemma binade_eq:
  assumes "2 powr of_int k \<le> \<bar>x\<bar>" and "\<bar>x\<bar> < 2 powr (of_int k + 1)"
  shows "binade x = k"
proof -
  have "(0::real) < 2 powr of_int k" by simp
  with assms(1) have "0 < \<bar>x\<bar>" by linarith
  then show ?thesis
    using assms floor_log_eq_powr_iff [of "\<bar>x\<bar>" 2 k] by (simp add: binade_def)
qed

lemma binade_minus [simp]: "binade (- x) = binade x"
  by (simp add: binade_def)

lemma fl_zero [simp]: "fl 0 = 0"
  by (simp add: fl_def)

lemma fl_minus: "fl (- x) = - fl x"
  by (simp add: fl_def rne_minus)

lemma fl_at:
  assumes "2 powr of_int k \<le> \<bar>x\<bar>" and "\<bar>x\<bar> < 2 powr (of_int k + 1)"
  shows "fl x = of_int (rne (x / 2 powr (of_int k - 52))) * 2 powr (of_int k - 52)"
proof -
  have "(0::real) < 2 powr of_int k" by simp
  with assms(1) have "x \<noteq> 0" by auto
  then show ?thesis using binade_eq [OF assms] by (simp add: fl_def)
qed

lemma scaled_bounds:
  assumes "0 < x"
  shows "2 ^ 52 \<le> x / 2 powr (of_int (binade x) - 52)"
    and "x / 2 powr (of_int (binade x) - 52) < 2 ^ 53"
proof -
  let ?b = "of_int (binade x) :: real"
  have x0: "x \<noteq> 0" using assms by simp
  have lo: "2 powr ?b \<le> x" and hi: "x < 2 powr (?b + 1)"
    using binade_bounds [OF x0] assms by simp_all
  have q: "(0::real) < 2 powr (?b - 52)" by simp
  have e1: "2 powr ?b = 2 ^ 52 * 2 powr (?b - 52)"
    by (simp add: powr_diff)
  have e2: "2 powr (?b + 1) = 2 ^ 53 * 2 powr (?b - 52)"
    by (simp add: powr_diff powr_add)
  show "2 ^ 52 \<le> x / 2 powr (?b - 52)"
    using lo q unfolding e1 by (simp add: pos_le_divide_eq)
  show "x / 2 powr (?b - 52) < 2 ^ 53"
    using hi q unfolding e2 by (simp add: pos_divide_less_eq)
qed

lemma rne_scaled_bounds:
  assumes "0 < x"
  shows "2 ^ 52 \<le> rne (x / 2 powr (of_int (binade x) - 52))"
    and "rne (x / 2 powr (of_int (binade x) - 52)) \<le> 2 ^ 53"
proof -
  let ?y = "x / 2 powr (of_int (binade x) - 52)"
  have "rne (of_int (2 ^ 52)) \<le> rne ?y"
    using scaled_bounds(1) [OF assms] by (intro rne_mono) simp
  then show "2 ^ 52 \<le> rne ?y" by (simp only: rne_of_int)
  have "rne ?y \<le> rne (of_int (2 ^ 53))"
    using scaled_bounds(2) [OF assms] by (intro rne_mono) simp
  then show "rne ?y \<le> 2 ^ 53" by (simp only: rne_of_int)
qed

lemma fl_pos_bounds:
  assumes "0 < x"
  shows "2 powr of_int (binade x) \<le> fl x" and "fl x \<le> 2 powr (of_int (binade x) + 1)"
proof -
  let ?b = "of_int (binade x) :: real"
  let ?m = "rne (x / 2 powr (?b - 52))"
  have f: "fl x = of_int ?m * 2 powr (?b - 52)" using assms by (simp add: fl_def)
  have q: "(0::real) < 2 powr (?b - 52)" by simp
  have e1: "2 powr ?b = 2 ^ 52 * 2 powr (?b - 52)"
    by (simp add: powr_diff)
  have e2: "2 powr (?b + 1) = 2 ^ 53 * 2 powr (?b - 52)"
    by (simp add: powr_diff powr_add)
  have m1: "(2 ^ 52 :: real) \<le> of_int ?m"
    using rne_scaled_bounds(1) [OF assms] by (metis of_int_le_iff of_int_numeral of_int_power)
  have m2: "of_int ?m \<le> (2 ^ 53 :: real)"
    using rne_scaled_bounds(2) [OF assms] by (metis of_int_le_iff of_int_numeral of_int_power)
  show "2 powr ?b \<le> fl x"
    unfolding f e1 using m1 q by (intro mult_right_mono) simp_all
  show "fl x \<le> 2 powr (?b + 1)"
    unfolding f e2 using m2 q by (intro mult_right_mono) simp_all
qed

lemma fl_pos: "0 < x \<Longrightarrow> 0 < fl x"
proof -
  assume "0 < x"
  then have "2 powr of_int (binade x) \<le> fl x" by (rule fl_pos_bounds(1))
  moreover have "(0::real) < 2 powr of_int (binade x)" by simp
  ultimately show ?thesis by linarith
qed





lemma fl_idem_pos:
  assumes "0 < x"
  shows "fl (fl x) = fl x"
proof -
  let ?b = "binade x"
  let ?q = "2 powr (of_int ?b - 52) :: real"
  let ?m = "rne (x / ?q)"
  have f: "fl x = of_int ?m * ?q" using assms by (simp add: fl_def)
  have q: "0 < ?q" by simp
  have m1: "2 ^ 52 \<le> ?m" and m2: "?m \<le> 2 ^ 53"
    using rne_scaled_bounds [OF assms] by simp_all
  have e1: "2 powr of_int ?b = 2 ^ 52 * ?q" by (simp add: powr_diff)
  have e2: "2 powr (of_int ?b + 1) = 2 ^ 53 * ?q" by (simp add: powr_diff powr_add)
  show ?thesis
  proof (cases "?m = 2 ^ 53")
    case True
    have v: "fl x = 2 powr (of_int (?b + 1))"
      unfolding f True using e2 by simp
    have lo: "2 powr of_int (?b + 1) \<le> \<bar>fl x\<bar>" unfolding v by simp
    have hi: "\<bar>fl x\<bar> < 2 powr (of_int (?b + 1) + 1)" unfolding v by simp
    have sc: "fl x / 2 powr (of_int (?b + 1) - 52) = of_int (2 ^ 52)"
      unfolding v by (simp add: powr_diff powr_add)
    have "fl (fl x) = of_int (rne (of_int (2 ^ 52))) * 2 powr (of_int (?b + 1) - 52)"
      using fl_at [OF lo hi] sc by simp
    also have "\<dots> = 2 powr (of_int (?b + 1))"
      by (simp only: rne_of_int) (simp add: powr_diff powr_add)
    finally show ?thesis using v by simp
  next
    case False
    then have m3: "?m < 2 ^ 53" using m2 by simp
    have r1: "(2 ^ 52 :: real) \<le> of_int ?m"
      using m1 by (metis of_int_le_iff of_int_numeral of_int_power)
    have r3: "of_int ?m < (2 ^ 53 :: real)"
      using m3 by (metis of_int_less_iff of_int_numeral of_int_power)
    have pos: "0 < fl x" using assms by (rule fl_pos)
    have lo: "2 powr of_int ?b \<le> \<bar>fl x\<bar>"
      unfolding f e1 using r1 q by (simp add: abs_mult)
    have hi: "\<bar>fl x\<bar> < 2 powr (of_int ?b + 1)"
      unfolding f e2 using r3 r1 q by (simp add: abs_mult)
    have sc: "fl x / ?q = of_int ?m" unfolding f by simp
    have "fl (fl x) = of_int (rne (fl x / ?q)) * ?q"
      by (rule fl_at [OF lo hi])
    also have "\<dots> = of_int ?m * ?q" unfolding sc by (simp only: rne_of_int)
    finally show ?thesis using f by simp
  qed
qed

lemma fl_idem [simp]: "fl (fl x) = fl x"
proof -
  consider "0 < x" | "x = 0" | "x < 0" by linarith
  then show ?thesis
  proof cases
    case 1
    then show ?thesis by (rule fl_idem_pos)
  next
    case 2
    then show ?thesis by simp
  next
    case 3
    then have "fl (fl (- x)) = fl (- x)" by (intro fl_idem_pos) simp
    then show ?thesis by (simp add: fl_minus)
  qed
qed

lemma fl_one [simp]: "fl 1 = 1"
proof -
  have "fl 1 = of_int (rne (1 / 2 powr (of_int 0 - 52))) * 2 powr (of_int 0 - 52)"
    by (rule fl_at) simp_all
  also have "1 / 2 powr (of_int 0 - 52) = (of_int (2 ^ 52) :: real)"
    by (simp add: powr_minus)
  finally show ?thesis by (simp only: rne_of_int) (simp add: powr_minus)
qed










section \<open>The coordinate mapping\<close>




end
